theory Spec2Isabelle
  imports Main "HOL-Library.Word"
begin

section \<open>Strings and rendered elements\<close>

text \<open>
  A JavaScript string is a sequence of UTF-16 code units, and \<open>===\<close> on strings compares
  these sequences. An emoji outside the basic plane is a surrogate pair; some palette
  entries carry the variation selector U+FE0F as a further unit.
\<close>

type_synonym jsstring = "16 word list"

definition ascii :: "string \<Rightarrow> jsstring" where
  "ascii s = map (\<lambda>c. of_nat (of_char c)) s"

datatype attr_value = Str jsstring | Num int

text \<open>
  A rendered React element: tag, \<open>key\<close>, the attributes in source order, the \<open>onClick\<close>
  handler (the value the handler passes on when it runs) and the children. Text content is
  a \<open>TextNode\<close>.
\<close>

datatype 'c element =
    Element string "jsstring option" "(string \<times> attr_value) list" "'c option" "'c element list"
  | TextNode jsstring

fun handler_of :: "'c element \<Rightarrow> 'c list" where
  "handler_of (Element t k as h cs) = (case h of None \<Rightarrow> [] | Some c \<Rightarrow> [c])"
| "handler_of (TextNode s) = []"

fun children_of :: "'c element \<Rightarrow> 'c element list" where
  "children_of (Element t k as h cs) = cs"
| "children_of (TextNode s) = []"

fun attr :: "string \<Rightarrow> 'c element \<Rightarrow> attr_value option" where
  "attr n (Element t k as h cs) = map_of as n"
| "attr n (TextNode s) = None"

text \<open>
  A click on the node at a path (child indices from the root list) runs the \<open>onClick\<close>
  handlers of the target and then of each ancestor, as a bubbling click event does.
  \<open>None\<close>: no node at that path.
\<close>

fun click :: "'c element list \<Rightarrow> nat list \<Rightarrow> 'c list option" where
  "click forest [] = None"
| "click forest [i] =
     (if i < length forest then Some (handler_of (forest ! i)) else None)"
| "click forest (i # j # p) =
     (if i < length forest
      then (case click (children_of (forest ! i)) (j # p) of
              None \<Rightarrow> None
            | Some hs \<Rightarrow> Some (hs @ handler_of (forest ! i)))
      else None)"

section \<open>EmojiPicker (src/components/molecules/EmojiPicker.tsx)\<close>

record position =
  top :: int
  left :: int

definition emojis :: "jsstring list" where
  "emojis =
    [
     [0xD83D, 0xDC4D],
     [0x2764, 0xFE0F],
     [0xD83D, 0xDE0A],
     [0xD83D, 0xDE02],
     [0xD83D, 0xDE31],
     [0xD83D, 0xDE22],
     [0xD83C, 0xDFC3],
     [0xD83D, 0xDCAF],
     [0xD83D, 0xDD25],
     [0xD83D, 0xDC4F],
     [0x2600, 0xFE0F],
     [0xD83C, 0xDF89],
     [0xD83C, 0xDF08],
     [0xD83D, 0xDE4C],
     [0xD83D, 0xDCA1],
     [0xD83C, 0xDFB6],
     [0xD83D, 0xDE0E],
     [0xD83E, 0xDD14],
     [0xD83E, 0xDDE0],
     [0xD83C, 0xDF55],
     [0xD83C, 0xDF1F],
     [0xD83D, 0xDE80],
     [0xD83D, 0xDC36],
     [0xD83D, 0xDC31],
     [0xD83C, 0xDF0D],
     [0xD83D, 0xDCDA],
     [0xD83C, 0xDFAF],
     [0xD83E, 0xDD73],
     [0xD83E, 0xDD16],
     [0xD83C, 0xDFA8],
     [0xD83E, 0xDDD8],
     [0xD83C, 0xDFC6],
     [0xD83D, 0xDCA5],
     [0xD83D, 0xDC96],
     [0xD83D, 0xDE07],
     [0xD83D, 0xDE1C],
     [0xD83C, 0xDF38],
     [0xD83D, 0xDCAC],
     [0xD83D, 0xDCF8],
     [0xD83D, 0xDEE0, 0xFE0F],
     [0x23F0],
     [0xD83E, 0xDDE9],
     [0xD83D, 0xDDFA, 0xFE0F]
    ]"

text \<open>The props' callbacks as the calls a test double records.\<close>

datatype picker_call = OnClose | OnEmojiSelect jsstring

definition emoji_button :: "(jsstring \<Rightarrow> 'c) \<Rightarrow> jsstring \<Rightarrow> 'c element" where
  "emoji_button onEmojiSelect emoji =
     Element ''button'' (Some emoji)
       [(''className'', Str (ascii ''w-8 h-8 flex items-center justify-center text-lg hover:bg-gray-100 dark:hover:bg-gray-700 rounded transition-colors'')),
        (''aria-label'', Str (ascii ''Emoji '' @ emoji)),
        (''title'', Str emoji)]
       (Some (onEmojiSelect emoji))
       [TextNode emoji]"

definition EmojiPicker ::
  "bool \<Rightarrow> 'c \<Rightarrow> (jsstring \<Rightarrow> 'c) \<Rightarrow> position \<Rightarrow> 'c element list option" where
  "EmojiPicker isOpen onClose onEmojiSelect pos =
     (if \<not> isOpen then None
      else Some
        [Element ''div'' None
           [(''className'', Str (ascii ''fixed inset-0 z-40'')),
            (''aria-hidden'', Str (ascii ''true''))]
           (Some onClose) [],
         Element ''div'' None
           [(''className'', Str (ascii ''fixed z-50 bg-white dark:bg-gray-800 border border-gray-200 dark:border-gray-600 rounded-lg shadow-lg p-3 grid grid-cols-4 gap-2'')),
            (''style.top'', Num (top pos)),
            (''style.left'', Num (left pos)),
            (''style.minWidth'', Str (ascii ''200px'')),
            (''role'', Str (ascii ''dialog'')),
            (''aria-label'', Str (ascii ''Emoji picker''))]
           None
           (map (emoji_button onEmojiSelect) emojis)])"

section \<open>useThrottle (the double of hooks/use-throttle.tsx in the RoomReaction test)\<close>

text \<open>
  The double keeps one module-level \<open>Map\<close> from the wrapped function to its record.
  A function is a key by identity, which HOL functions do not have, so a key \<open>'f\<close>
  stands for the identity and \<open>call\<close> for what the function computes. Times are the
  integer milliseconds of \<open>Date.now()\<close>. The result is the new table and what the
  wrapper returns: \<open>Some\<close> of the callback's result when the call is forwarded, \<open>None\<close>
  (\<open>undefined\<close>) when it is dropped and the callback does not run.
\<close>

record 'f throttle_info =
  fn :: 'f
  lastCall :: int
  delay :: int

definition throttled ::
  "'f \<Rightarrow> int \<Rightarrow> ('a \<Rightarrow> 'r) \<Rightarrow> int \<Rightarrow> 'a \<Rightarrow> ('f \<rightharpoonup> 'f throttle_info)
     \<Rightarrow> ('f \<rightharpoonup> 'f throttle_info) \<times> 'r option" where
  "throttled f dly call now args throttledFns =
     (case throttledFns f of
        None \<Rightarrow>
          (throttledFns(f \<mapsto> \<lparr>fn = f, lastCall = now, delay = dly\<rparr>), Some (call args))
      | Some throttleInfo \<Rightarrow>
          if now - lastCall throttleInfo < delay throttleInfo
          then (throttledFns, None)
          else (throttledFns(f \<mapsto> throttleInfo\<lparr>lastCall := now\<rparr>), Some (call args)))"

text \<open>
  A series of invocations of one wrapper, each at its time and with its argument, in
  order; the results are listed in the same order.
\<close>

fun invocations ::
  "'f \<Rightarrow> int \<Rightarrow> ('a \<Rightarrow> 'r) \<Rightarrow> (int \<times> 'a) list \<Rightarrow> ('f \<rightharpoonup> 'f throttle_info)
     \<Rightarrow> ('f \<rightharpoonup> 'f throttle_info) \<times> 'r option list" where
  "invocations f dly call [] m = (m, [])"
| "invocations f dly call ((now, args) # rest) m =
     (case throttled f dly call now args m of
        (m1, r) \<Rightarrow> (case invocations f dly call rest m1 of
                      (m2, rs) \<Rightarrow> (m2, r # rs)))"

text \<open>The callback results of the calls that ran, in order.\<close>

definition executed :: "'r option list \<Rightarrow> 'r list" where
  "executed rs = concat (map (\<lambda>r. case r of None \<Rightarrow> [] | Some v \<Rightarrow> [v]) rs)"

section \<open>The reaction gesture controller\<close>

text \<open>
  The controller component (components/molecules/room-reaction.tsx) is not among the
  sources; its test is. The definitions of this section follow sections 3 to 7 of the
  specification. An input for which section 4.4 lists no transition from the current
  state leaves the state as it is.
\<close>

type_synonym glyph = jsstring

type_synonym screen_position = "int \<times> int"

text \<open>Modelled from the spec: the burst descriptor of section 3 (glyph, position,
  duration, active flag); the component that owns it is missing. A descriptor is created
  when a reaction is sent or received and is gone when a new burst supersedes it.\<close>

record burst_descriptor =
  glyph :: glyph
  burst_position :: screen_position
  duration :: int
  active :: bool

text \<open>Modelled from the spec: the three states of section 4.4 of the missing
  controller. \<open>Pressing\<close> carries the time at which its single-shot timer is due.\<close>

datatype phase = Idle | Pressing int | SurfaceOpen

text \<open>Modelled from the spec: the configuration of sections 6 and 9 of the missing
  controller (long-press threshold, throttle window, the optional burst duration and
  burst position, whether an error handler is supplied) and the position read from the
  trigger control.\<close>

record config =
  threshold :: int
  throttleWindow :: int
  emojiBurstDuration :: "int option"
  emojiBurstPosition :: "screen_position option"
  onSendReactionError :: bool
  triggerPosition :: screen_position

text \<open>Modelled from the spec: the reference values of the missing controller
  (threshold 500 ms, window 200 ms, no overrides, no handler); the trigger position is
  that of the test's bounding box.\<close>

definition reference_config :: config where
  "reference_config =
     \<lparr>threshold = 500, throttleWindow = 200, emojiBurstDuration = None,
      emojiBurstPosition = None, onSendReactionError = False,
      triggerPosition = (100, 100)\<rparr>"

text \<open>Modelled from the spec: the state the missing controller owns (section 3): the
  state of the machine, the default emoji, the burst descriptors that exist and the
  throttle record of the inbound stream, with the clock of the event loop and the sends
  whose result has not arrived yet (section 5: the send is asynchronous), each with the
  glyph its continuation holds, oldest first.\<close>

record controller =
  phase :: phase
  defaultEmoji :: glyph
  bursts :: "burst_descriptor list"
  clock :: int
  throttledFns :: "unit \<rightharpoonup> unit throttle_info"
  inflight :: "glyph list"

text \<open>Modelled from the spec: the result of the send capability of section 6, as the
  missing controller receives it: success, or failure with an error.\<close>

datatype 'e outcome = Resolved | Rejected 'e

text \<open>Modelled from the spec: the inputs of the missing controller (section 5): press
  start and end, time passing (which fires a due timer), the surface's \<open>onSelect\<close> and
  \<open>onClose\<close>, the completion signal of the burst at a position among the descriptors,
  an inbound reaction, and the arrival of the result of the pending send at a position
  among the pending sends.\<close>

datatype 'e event =
    PressStart
  | PressEnd
  | Advance nat
  | Select glyph
  | Close
  | BurstComplete nat
  | Inbound glyph
  | SendSettled nat "'e outcome"

text \<open>Modelled from the spec: what the missing controller does to its collaborators:
  a call of the send capability, a call of the caller's error handler with (error,
  glyph), a diagnostic log line, and an error that leaves the handler as an exception
  and reaches the rendering framework.\<close>

datatype 'e effect = Send glyph | ErrorHandler 'e glyph | LogLine 'e | Uncaught 'e

text \<open>Modelled from the spec: the default burst lifetime of section 4.3 (600 ms) unless
  the caller overrides it; the component is missing.\<close>

definition burst_duration :: "config \<Rightarrow> int" where
  "burst_duration cfg = (case emojiBurstDuration cfg of None \<Rightarrow> 600 | Some d \<Rightarrow> d)"

text \<open>Modelled from the spec: the initial state of the missing controller: idle, the
  default emoji the thumbs-up glyph, no burst, no throttle record, no pending send.\<close>

definition init :: "config \<Rightarrow> controller" where
  "init cfg =
     \<lparr>phase = Idle, defaultEmoji = [0xD83D, 0xDC4D], bursts = [],
      clock = 0, throttledFns = Map.empty, inflight = []\<rparr>"

text \<open>Modelled from the spec: creating a burst in the missing controller (section 3): the
  new descriptor is active and supersedes the descriptors that exist.\<close>

definition show_burst :: "config \<Rightarrow> glyph \<Rightarrow> screen_position \<Rightarrow> controller \<Rightarrow> controller" where
  "show_burst cfg g pos s =
     s\<lparr>bursts := [\<lparr>glyph = g, burst_position = pos, duration = burst_duration cfg,
                     active = True\<rparr>]\<rparr>"

text \<open>Modelled from the spec: the send operation of section 4.4 of the missing
  controller: it calls the send capability with the glyph, which is then pending, and
  shows a burst at the trigger position without waiting. The result of the send arrives
  later, as an input.\<close>

definition send :: "config \<Rightarrow> glyph \<Rightarrow> controller \<Rightarrow> controller \<times> 'e effect list" where
  "send cfg g s =
     (show_burst cfg g (triggerPosition cfg) (s\<lparr>inflight := inflight s @ [g]\<rparr>),
      [Send g])"

text \<open>Modelled from the spec: the failure path of the send operation of the missing
  controller (sections 4.4 and 7): the failure of the send of a glyph is caught where
  the send was initiated and goes to the caller's handler with (error, glyph) if there
  is one, else to the log.\<close>

definition report_failure :: "config \<Rightarrow> 'e \<Rightarrow> glyph \<Rightarrow> 'e effect list" where
  "report_failure cfg e g =
     (if onSendReactionError cfg then [ErrorHandler e g] else [LogLine e])"

text \<open>Modelled from the spec: the boundary of section 7 of the missing controller. The
  result of a send goes to the continuation attached where the send was initiated; a
  success needs none, and a failure that finds no continuation leaves as an exception.\<close>

definition settle :: "'e outcome \<Rightarrow> ('e \<Rightarrow> 'e effect list) option \<Rightarrow> 'e effect list" where
  "settle result on_failure =
     (case result of
        Resolved \<Rightarrow> []
      | Rejected e \<Rightarrow> (case on_failure of None \<Rightarrow> [Uncaught e] | Some h \<Rightarrow> h e))"

text \<open>A list without its entry at a position.\<close>

definition without :: "nat \<Rightarrow> 'a list \<Rightarrow> 'a list" where
  "without i xs = take i xs @ drop (Suc i) xs"

text \<open>Modelled from the spec: the transitions of section 4.4 of the missing controller,
  with the inbound stream passed through the throttle (one record for the stream). A
  completion signal deactivates the burst it comes from, if that burst is active. The
  result of a pending send ends its being pending and goes to the continuation of that
  send, which reports a failure for the glyph of the send; a result for a send that is
  not pending does not exist and changes nothing.\<close>

fun step :: "config \<Rightarrow> controller \<Rightarrow> 'e event \<Rightarrow> controller \<times> 'e effect list" where
  "step cfg s PressStart =
     (case phase s of
        Idle \<Rightarrow> (s\<lparr>phase := Pressing (clock s + threshold cfg)\<rparr>, [])
      | Pressing due \<Rightarrow> (s, [])
      | SurfaceOpen \<Rightarrow> (s, []))"
| "step cfg s PressEnd =
     (case phase s of
        Idle \<Rightarrow> (s, [])
      | Pressing due \<Rightarrow> send cfg (defaultEmoji s) (s\<lparr>phase := Idle\<rparr>)
      | SurfaceOpen \<Rightarrow> (s, []))"
| "step cfg s (Advance d) =
     (case phase s of
        Idle \<Rightarrow> (s\<lparr>clock := clock s + int d\<rparr>, [])
      | Pressing due \<Rightarrow>
          if due \<le> clock s + int d
          then (s\<lparr>clock := clock s + int d, phase := SurfaceOpen\<rparr>, [])
          else (s\<lparr>clock := clock s + int d\<rparr>, [])
      | SurfaceOpen \<Rightarrow> (s\<lparr>clock := clock s + int d\<rparr>, []))"
| "step cfg s (Select g) =
     (case phase s of
        Idle \<Rightarrow> (s, [])
      | Pressing due \<Rightarrow> (s, [])
      | SurfaceOpen \<Rightarrow> send cfg g (s\<lparr>phase := Idle, defaultEmoji := g\<rparr>))"
| "step cfg s Close =
     (case phase s of
        Idle \<Rightarrow> (s, [])
      | Pressing due \<Rightarrow> (s, [])
      | SurfaceOpen \<Rightarrow> (s\<lparr>phase := Idle\<rparr>, []))"
| "step cfg s (BurstComplete i) =
     (if i < length (bursts s) \<and> active (bursts s ! i)
      then (s\<lparr>bursts := (bursts s)[i := (bursts s ! i)\<lparr>active := False\<rparr>]\<rparr>, [])
      else (s, []))"
| "step cfg s (Inbound g) =
     (case throttled () (throttleWindow cfg) (\<lambda>g. g) (clock s) g (throttledFns s) of
        (m, None) \<Rightarrow> (s\<lparr>throttledFns := m\<rparr>, [])
      | (m, Some g') \<Rightarrow>
          (show_burst cfg g'
             (case emojiBurstPosition cfg of
                None \<Rightarrow> triggerPosition cfg | Some p \<Rightarrow> p)
             (s\<lparr>throttledFns := m\<rparr>),
           []))"
| "step cfg s (SendSettled i result) =
     (if i < length (inflight s)
      then (s\<lparr>inflight := without i (inflight s)\<rparr>,
            settle result (Some (\<lambda>e. report_failure cfg e (inflight s ! i))))
      else (s, []))"

text \<open>The inputs of a list in order, with the effects collected in order.\<close>

fun run :: "config \<Rightarrow> controller \<Rightarrow> 'e event list \<Rightarrow> controller \<times> 'e effect list" where
  "run cfg s [] = (s, [])"
| "run cfg s (ev # evs) =
     (case step cfg s ev of
        (s1, fx1) \<Rightarrow> (case run cfg s1 evs of (s2, fx2) \<Rightarrow> (s2, fx1 @ fx2)))"

fun sends :: "'e effect list \<Rightarrow> glyph list" where
  "sends [] = []"
| "sends (Send g # fx) = g # sends fx"
| "sends (ErrorHandler e g # fx) = sends fx"
| "sends (LogLine e # fx) = sends fx"
| "sends (Uncaught e # fx) = sends fx"

fun handler_calls :: "'e effect list \<Rightarrow> ('e \<times> glyph) list" where
  "handler_calls [] = []"
| "handler_calls (Send g # fx) = handler_calls fx"
| "handler_calls (ErrorHandler e g # fx) = (e, g) # handler_calls fx"
| "handler_calls (LogLine e # fx) = handler_calls fx"
| "handler_calls (Uncaught e # fx) = handler_calls fx"

fun log_lines :: "'e effect list \<Rightarrow> 'e list" where
  "log_lines [] = []"
| "log_lines (Send g # fx) = log_lines fx"
| "log_lines (ErrorHandler e g # fx) = log_lines fx"
| "log_lines (LogLine e # fx) = e # log_lines fx"
| "log_lines (Uncaught e # fx) = log_lines fx"

fun uncaught :: "'e effect list \<Rightarrow> 'e list" where
  "uncaught [] = []"
| "uncaught (Send g # fx) = uncaught fx"
| "uncaught (ErrorHandler e g # fx) = uncaught fx"
| "uncaught (LogLine e # fx) = uncaught fx"
| "uncaught (Uncaught e # fx) = e # uncaught fx"

text \<open>The time that passes during a list of inputs.\<close>

fun elapsed :: "'e event list \<Rightarrow> int" where
  "elapsed [] = 0"
| "elapsed (Advance d # evs) = int d + elapsed evs"
| "elapsed (ev # evs) = elapsed evs"

text \<open>The terminal events of an open surface.\<close>

fun terminal :: "'e event \<Rightarrow> bool" where
  "terminal (Select g) = True"
| "terminal Close = True"
| "terminal ev = False"

text \<open>Modelled from the spec: what the missing controller renders: the trigger showing
  the default emoji, the selection surface while it is open, a burst for each
  descriptor that is active.\<close>

datatype view = Trigger glyph | Surface screen_position | Burst burst_descriptor

definition render_controller :: "config \<Rightarrow> controller \<Rightarrow> view list" where
  "render_controller cfg s =
     [Trigger (defaultEmoji s)]
     @ (if phase s = SurfaceOpen then [Surface (triggerPosition cfg)] else [])
     @ map Burst (filter active (bursts s))"

fun is_surface :: "view \<Rightarrow> bool" where
  "is_surface (Surface p) = True"
| "is_surface v = False"

fun is_burst :: "view \<Rightarrow> bool" where
  "is_burst (Burst b) = True"
| "is_burst v = False"

section \<open>The palette\<close>

lemma length_emojis: "length emojis = 43"
  by (simp add: emojis_def)

text \<open>
  C10. The entries of the fixed emoji palette are pairwise distinct strings: no glyph
  appears twice, so the \<open>key\<close> of each rendered glyph control identifies it and string
  equality tells any two palette entries apart.
\<close>

theorem emojis_distinct:
  "distinct emojis \<and>
   distinct (map (\<lambda>g. emoji_button OnEmojiSelect g) emojis)"
proof
  show "distinct emojis"
    by (simp add: emojis_def)
  then show "distinct (map (\<lambda>g. emoji_button OnEmojiSelect g) emojis)"
    by (simp add: distinct_map inj_on_def emoji_button_def)
qed

section \<open>Clicks on the rendered picker\<close>

lemma handler_emoji_button: "handler_of (emoji_button f g) = [f g]"
  by (simp add: emoji_button_def)

lemma children_emoji_button: "children_of (emoji_button f g) = [TextNode g]"
  by (simp add: emoji_button_def)

lemma click_Nil [simp]: "click [] p = None"
  by (induction "[] :: 'c element list" p rule: click.induct) simp_all

text \<open>The only click targets in a row of glyph buttons are a button and its text.\<close>

lemma click_buttons:
  "click (map (emoji_button f) gs) p = Some cs \<longleftrightarrow>
     (\<exists>i < length gs. (p = [i] \<or> p = [i, 0]) \<and> cs = [f (gs ! i)])"
proof (cases p)
  case Nil
  then show ?thesis by simp
next
  case (Cons i q)
  note p = this
  show ?thesis
  proof (cases q)
    case Nil
    with p show ?thesis by (auto simp: handler_emoji_button)
  next
    case (Cons j r)
    with p show ?thesis
      by (cases r)
         (auto simp: handler_emoji_button children_emoji_button split: option.splits)
  qed
qed

text \<open>
  Every click target of the open picker and the handlers it runs: the backdrop runs
  \<open>onClose\<close>, the panel itself nothing, a glyph button (or the text inside it) runs
  \<open>onEmojiSelect\<close> once with the glyph of that button.
\<close>

lemma click_EmojiPicker:
  assumes "EmojiPicker True onClose onSelect pos = Some els"
  shows "click els p = Some cs \<longleftrightarrow>
     (p = [0] \<and> cs = [onClose]) \<or> (p = [1] \<and> cs = []) \<or>
     (\<exists>i < length emojis. (p = [1, i] \<or> p = [1, i, 0]) \<and> cs = [onSelect (emojis ! i)])"
proof (cases p)
  case Nil
  then show ?thesis by simp
next
  case (Cons a q)
  note p = this
  show ?thesis
  proof (cases q)
    case Nil
    with p assms show ?thesis
      by (auto simp: EmojiPicker_def less_Suc_eq)
  next
    case (Cons b r)
    have els: "length els = 2" "children_of (els ! 0) = []" "handler_of (els ! 1) = []"
      "children_of (els ! 1) = map (emoji_button onSelect) emojis"
      using assms by (auto simp: EmojiPicker_def)
    have a: "a < 2 \<longleftrightarrow> a = 0 \<or> a = 1" by auto
    show ?thesis
      using p Cons els click_buttons[of onSelect emojis "b # r" cs]
      by (auto simp: a split: option.splits)
  qed
qed

text \<open>
  C8. A closed picker renders nothing. On the open picker a click on the backdrop runs
  \<open>onClose\<close> and nothing else; a click on the control of a glyph (or on the glyph text
  in it) runs the selection callback exactly once, with that glyph, and does not run
  \<open>onClose\<close>.
\<close>

theorem EmojiPicker_click_contract:
  "EmojiPicker False onClose onSelect pos = None \<and>
   (\<exists>els. EmojiPicker True OnClose OnEmojiSelect pos = Some els \<and>
      click els [0] = Some [OnClose] \<and>
      (\<forall>i < length emojis.
          click els [1, i] = Some [OnEmojiSelect (emojis ! i)] \<and>
          click els [1, i, 0] = Some [OnEmojiSelect (emojis ! i)]))"
proof
  show "EmojiPicker False onClose onSelect pos = None"
    by (simp add: EmojiPicker_def)
  obtain els where els: "EmojiPicker True OnClose OnEmojiSelect pos = Some els"
    by (simp add: EmojiPicker_def)
  have "click els [0] = Some [OnClose]"
    using click_EmojiPicker[OF els, of "[0]" "[OnClose]"] by simp
  moreover have "click els [1, i] = Some [OnEmojiSelect (emojis ! i)]"
    if "i < length emojis" for i
    using click_EmojiPicker[OF els, of "[1, i]" "[OnEmojiSelect (emojis ! i)]"] that
    by auto
  moreover have "click els [1, i, 0] = Some [OnEmojiSelect (emojis ! i)]"
    if "i < length emojis" for i
    using click_EmojiPicker[OF els, of "[1, i, 0]" "[OnEmojiSelect (emojis ! i)]"] that
    by auto
  ultimately show "\<exists>els. EmojiPicker True OnClose OnEmojiSelect pos = Some els \<and>
      click els [0] = Some [OnClose] \<and>
      (\<forall>i < length emojis.
          click els [1, i] = Some [OnEmojiSelect (emojis ! i)] \<and>
          click els [1, i, 0] = Some [OnEmojiSelect (emojis ! i)])"
    using els by blast
qed

theorem EmojiPicker_click_contract_witness:
  "EmojiPicker False OnClose OnEmojiSelect \<lparr>top = 140, left = 100\<rparr> = None \<and>
   click (the (EmojiPicker True OnClose OnEmojiSelect \<lparr>top = 140, left = 100\<rparr>)) [0]
     = Some [OnClose] \<and>
   (1::nat) < length emojis \<and>
   click (the (EmojiPicker True OnClose OnEmojiSelect \<lparr>top = 140, left = 100\<rparr>)) [1, 1]
     = Some [OnEmojiSelect [0x2764, 0xFE0F]]"
proof -
  let ?pos = "\<lparr>top = 140, left = 100\<rparr>"
  note contract = EmojiPicker_click_contract [of OnClose OnEmojiSelect ?pos]
  have e: "emojis ! 1 = [0x2764, 0xFE0F]"
    by (simp add: emojis_def)
  from contract have closed: "EmojiPicker False OnClose OnEmojiSelect ?pos = None"
    by (rule conjunct1)
  from contract obtain els where
    els: "EmojiPicker True OnClose OnEmojiSelect ?pos = Some els"
    and backdrop: "click els [0] = Some [OnClose]"
    and glyph: "\<forall>i < length emojis. click els [1, i] = Some [OnEmojiSelect (emojis ! i)] \<and>
          click els [1, i, 0] = Some [OnEmojiSelect (emojis ! i)]"
    by blast
  from glyph have "click els [1, 1] = Some [OnEmojiSelect (emojis ! 1)]"
    by (simp add: length_emojis del: click.simps)
  with closed els backdrop e show ?thesis
    by (simp add: length_emojis del: click.simps)
qed

text \<open>
  C9. The palette is one fixed list of 43 glyphs whose first entry is the thumbs-up
  glyph. The open picker renders a backdrop and a panel with role \<open>dialog\<close>; the panel's
  children are one button per palette entry, in palette order, each with the label
  \<open>Emoji g\<close>, the title \<open>g\<close> and the text \<open>g\<close> for its own glyph \<open>g\<close>, and each a click
  target of its own. Whatever is clicked, the selection callback only ever receives a
  glyph of the palette.
\<close>

theorem EmojiPicker_palette:
  "length emojis = 43 \<and> hd emojis = [0xD83D, 0xDC4D] \<and>
   (\<exists>backdrop panel.
      EmojiPicker True OnClose OnEmojiSelect pos = Some [backdrop, panel] \<and>
      attr ''role'' panel = Some (Str (ascii ''dialog'')) \<and>
      children_of panel = map (emoji_button OnEmojiSelect) emojis \<and>
      (\<forall>i < length emojis.
          attr ''aria-label'' (children_of panel ! i)
            = Some (Str (ascii ''Emoji '' @ emojis ! i)) \<and>
          attr ''title'' (children_of panel ! i) = Some (Str (emojis ! i)) \<and>
          children_of (children_of panel ! i) = [TextNode (emojis ! i)] \<and>
          click [backdrop, panel] [1, i] = Some [OnEmojiSelect (emojis ! i)]) \<and>
      (\<forall>p cs g. click [backdrop, panel] p = Some cs \<longrightarrow> OnEmojiSelect g \<in> set cs
          \<longrightarrow> g \<in> set emojis))"
proof -
  obtain backdrop panel where
    els: "EmojiPicker True OnClose OnEmojiSelect pos = Some [backdrop, panel]"
    and role: "attr ''role'' panel = Some (Str (ascii ''dialog''))"
    and kids: "children_of panel = map (emoji_button OnEmojiSelect) emojis"
    by (simp add: EmojiPicker_def)
  have button: "attr ''aria-label'' (children_of panel ! i)
            = Some (Str (ascii ''Emoji '' @ emojis ! i)) \<and>
          attr ''title'' (children_of panel ! i) = Some (Str (emojis ! i)) \<and>
          children_of (children_of panel ! i) = [TextNode (emojis ! i)] \<and>
          click [backdrop, panel] [1, i] = Some [OnEmojiSelect (emojis ! i)]"
    if i: "i < length emojis" for i
  proof -
    have "click [backdrop, panel] [1, i] = Some [OnEmojiSelect (emojis ! i)]"
      using click_EmojiPicker[OF els, of "[1, i]" "[OnEmojiSelect (emojis ! i)]"] i
      by auto
    then show ?thesis
      using i by (simp add: kids emoji_button_def)
  qed
  have member: "g \<in> set emojis"
    if "click [backdrop, panel] p = Some cs" "OnEmojiSelect g \<in> set cs" for p cs g
    using click_EmojiPicker[OF els, of p cs] that by auto
  have "hd emojis = [0xD83D, 0xDC4D]"
    by (simp add: emojis_def)
  with els role kids button member show ?thesis
    by (simp add: length_emojis)
qed

theorem EmojiPicker_palette_witness:
  "length emojis = 43 \<and> (42::nat) < length emojis \<and>
   attr ''aria-label''
     (children_of (the (EmojiPicker True OnClose OnEmojiSelect \<lparr>top = 0, left = 0\<rparr>) ! 1) ! 42)
     = Some (Str [0x45, 0x6D, 0x6F, 0x6A, 0x69, 0x20, 0xD83D, 0xDDFA, 0xFE0F]) \<and>
   click (the (EmojiPicker True OnClose OnEmojiSelect \<lparr>top = 0, left = 0\<rparr>)) [1, 42]
     = Some [OnEmojiSelect [0xD83D, 0xDDFA, 0xFE0F]] \<and>
   [0xD83D, 0xDDFA, 0xFE0F] \<in> set emojis"
proof -
  have e: "emojis ! 42 = [0xD83D, 0xDDFA, 0xFE0F]"
    by (simp add: emojis_def)
  obtain backdrop panel where
    els: "EmojiPicker True OnClose OnEmojiSelect \<lparr>top = 0, left = 0\<rparr> = Some [backdrop, panel]"
    and buttons: "\<forall>i < length emojis.
          attr ''aria-label'' (children_of panel ! i)
            = Some (Str (ascii ''Emoji '' @ emojis ! i)) \<and>
          attr ''title'' (children_of panel ! i) = Some (Str (emojis ! i)) \<and>
          children_of (children_of panel ! i) = [TextNode (emojis ! i)] \<and>
          click [backdrop, panel] [1, i] = Some [OnEmojiSelect (emojis ! i)]"
    and m: "\<forall>p cs g. click [backdrop, panel] p = Some cs \<longrightarrow> OnEmojiSelect g \<in> set cs
          \<longrightarrow> g \<in> set emojis"
    using EmojiPicker_palette [of "\<lparr>top = 0, left = 0\<rparr>"] by blast
  from buttons have b: "attr ''aria-label'' (children_of panel ! 42)
            = Some (Str (ascii ''Emoji '' @ emojis ! 42))"
    and c: "click [backdrop, panel] [1, 42] = Some [OnEmojiSelect (emojis ! 42)]"
    by (simp_all add: length_emojis del: click.simps)
  from m c have "emojis ! 42 \<in> set emojis"
    by (metis list.set_intros(1))
  with els b c e show ?thesis
    by (simp add: length_emojis ascii_def del: click.simps)
qed

section \<open>The throttle window\<close>

text \<open>
  C4. For a callback wrapped with window \<open>W\<close>: the first invocation (no record yet) is
  forwarded and registers the record with its time and \<open>W\<close>; with a record of window
  \<open>W\<close>, an invocation less than \<open>W\<close> after the last accepted one is dropped, and one at
  least \<open>W\<close> after it (also exactly \<open>W\<close>) is forwarded and its time becomes the last
  accepted time.
\<close>

theorem throttled_window:
  "(m f = None \<longrightarrow>
      throttled f W call now a m
        = (m(f \<mapsto> \<lparr>fn = f, lastCall = now, delay = W\<rparr>), Some (call a))) \<and>
   (m f = Some info \<and> delay info = W \<and> now - lastCall info < W \<longrightarrow>
      throttled f W call now a m = (m, None)) \<and>
   (m f = Some info \<and> delay info = W \<and> W \<le> now - lastCall info \<longrightarrow>
      throttled f W call now a m = (m(f \<mapsto> info\<lparr>lastCall := now\<rparr>), Some (call a)))"
  by (simp add: throttled_def)

theorem throttled_window_witness:
  "throttled (0::nat) 200 (\<lambda>g::nat. g) 0 7 Map.empty
     = (Map.empty(0 \<mapsto> \<lparr>fn = 0, lastCall = 0, delay = 200\<rparr>), Some 7) \<and>
   throttled (0::nat) 200 (\<lambda>g::nat. g) 199 8
       (Map.empty(0 \<mapsto> \<lparr>fn = 0, lastCall = 0, delay = 200\<rparr>))
     = (Map.empty(0 \<mapsto> \<lparr>fn = 0, lastCall = 0, delay = 200\<rparr>), None) \<and>
   throttled (0::nat) 200 (\<lambda>g::nat. g) 200 9
       (Map.empty(0 \<mapsto> \<lparr>fn = 0, lastCall = 0, delay = 200\<rparr>))
     = (Map.empty(0 \<mapsto> \<lparr>fn = 0, lastCall = 200, delay = 200\<rparr>), Some 9)"
proof -
  let ?r = "\<lparr>fn = 0::nat, lastCall = 0, delay = 200\<rparr>"
  let ?m = "Map.empty(0::nat \<mapsto> ?r)"
  have "throttled (0::nat) 200 (\<lambda>g::nat. g) 0 7 Map.empty
     = (Map.empty(0 \<mapsto> \<lparr>fn = 0, lastCall = 0, delay = 200\<rparr>), Some 7)"
    using throttled_window [where m = Map.empty and f = "0::nat" and W = 200 and now = 0
        and call = "\<lambda>g::nat. g" and a = 7]
    by simp
  moreover have "throttled (0::nat) 200 (\<lambda>g::nat. g) 199 8 ?m = (?m, None)"
    using throttled_window [where m = ?m and f = "0::nat" and info = ?r and W = 200
        and now = 199 and call = "\<lambda>g::nat. g" and a = 8]
    by simp
  moreover have "throttled (0::nat) 200 (\<lambda>g::nat. g) 200 9 ?m
      = (Map.empty(0 \<mapsto> \<lparr>fn = 0, lastCall = 200, delay = 200\<rparr>), Some 9)"
    using throttled_window [where m = ?m and f = "0::nat" and info = ?r and W = 200
        and now = 200 and call = "\<lambda>g::nat. g" and a = 9]
    by simp
  ultimately show ?thesis by simp
qed

text \<open>
  A callback that is only ever wrapped with window \<open>W\<close> keeps a record of window \<open>W\<close>.
\<close>

lemma throttled_keeps_window:
  assumes "m f = None \<or> (\<exists>info. m f = Some info \<and> delay info = W)"
  shows "\<exists>info. fst (throttled f W call now a m) f = Some info \<and> delay info = W"
  using assms by (auto simp: throttled_def)

lemma invocations_append:
  "invocations f W call (xs @ ys) m =
     (case invocations f W call xs m of
        (m1, rs1) \<Rightarrow> (case invocations f W call ys m1 of
                        (m2, rs2) \<Rightarrow> (m2, rs1 @ rs2)))"
  by (induction xs arbitrary: m) (auto split: prod.splits)

lemma executed_append: "executed (rs @ rs') = executed rs @ executed rs'"
  by (simp add: executed_def)

lemma throttled_dropped:
  "snd (throttled f W call now a m) = None \<Longrightarrow> throttled f W call now a m = (m, None)"
  by (auto simp: throttled_def split: option.splits if_splits)

text \<open>
  C5. A dropped invocation leaves the table of records as it was. So in any series of
  invocations, taking the dropped one out changes neither the final table nor which of
  the other invocations are forwarded (the results after it are those of the calls after
  it run from the unchanged table), and the callbacks that run are the same: nothing is
  replayed later for the dropped call.
\<close>

theorem dropped_invocation_no_effect:
  assumes "invocations f W call before m = (m1, rs1)"
    and "snd (throttled f W call now a m1) = None"
  shows "throttled f W call now a m1 = (m1, None) \<and>
     invocations f W call (before @ (now, a) # after) m
       = (fst (invocations f W call after m1),
          rs1 @ None # snd (invocations f W call after m1)) \<and>
     fst (invocations f W call (before @ (now, a) # after) m)
       = fst (invocations f W call (before @ after) m) \<and>
     executed (snd (invocations f W call (before @ (now, a) # after) m))
       = executed (snd (invocations f W call (before @ after) m))"
proof -
  have d: "throttled f W call now a m1 = (m1, None)"
    using assms(2) by (rule throttled_dropped)
  have with_call: "invocations f W call (before @ (now, a) # after) m
       = (fst (invocations f W call after m1),
          rs1 @ None # snd (invocations f W call after m1))"
    by (simp add: invocations_append assms(1) d split: prod.splits)
  have without: "invocations f W call (before @ after) m
       = (fst (invocations f W call after m1), rs1 @ snd (invocations f W call after m1))"
    by (simp add: invocations_append assms(1) split: prod.splits)
  have "executed (rs1 @ None # snd (invocations f W call after m1))
      = executed (rs1 @ snd (invocations f W call after m1))"
    by (simp add: executed_def)
  with d with_call without show ?thesis by simp
qed

text \<open>
  The scenario of the test: window 200, reactions at 0, 150 and 201. The second is
  dropped, the third is measured from the first and forwarded.
\<close>

theorem dropped_invocation_no_effect_witness:
  "invocations () 200 (\<lambda>g::nat. g) [(0, 1)] Map.empty
     = (Map.empty(() \<mapsto> \<lparr>fn = (), lastCall = 0, delay = 200\<rparr>), [Some 1]) \<and>
   snd (throttled () 200 (\<lambda>g::nat. g) 150 2
          (Map.empty(() \<mapsto> \<lparr>fn = (), lastCall = 0, delay = 200\<rparr>))) = None \<and>
   invocations () 200 (\<lambda>g::nat. g) [(0, 1), (150, 2), (201, 3)] Map.empty
     = (Map.empty(() \<mapsto> \<lparr>fn = (), lastCall = 201, delay = 200\<rparr>), [Some 1, None, Some 3]) \<and>
   executed (snd (invocations () 200 (\<lambda>g::nat. g) [(0, 1), (150, 2), (201, 3)] Map.empty))
     = executed (snd (invocations () 200 (\<lambda>g::nat. g) [(0, 1), (201, 3)] Map.empty))"
proof -
  let ?m1 = "Map.empty(() \<mapsto> \<lparr>fn = (), lastCall = 0, delay = 200\<rparr>)"
  have b: "invocations () 200 (\<lambda>g::nat. g) [(0, 1)] Map.empty = (?m1, [Some 1])"
    by (simp add: throttled_def)
  have d: "snd (throttled () 200 (\<lambda>g::nat. g) 150 2 ?m1) = None"
    by (simp add: throttled_def)
  have a: "invocations () 200 (\<lambda>g::nat. g) [(201, 3)] ?m1
     = (Map.empty(() \<mapsto> \<lparr>fn = (), lastCall = 201, delay = 200\<rparr>), [Some 3])"
    by (simp add: throttled_def)
  have w: "invocations () 200 (\<lambda>g::nat. g) [(0, 1), (201, 3)] Map.empty
     = (Map.empty(() \<mapsto> \<lparr>fn = (), lastCall = 201, delay = 200\<rparr>), [Some 1, Some 3])"
    by (simp add: throttled_def)
  have "invocations () 200 (\<lambda>g::nat. g) ([(0, 1)] @ (150, 2) # [(201, 3)]) Map.empty
     = (Map.empty(() \<mapsto> \<lparr>fn = (), lastCall = 201, delay = 200\<rparr>), [Some 1, None, Some 3])"
    using dropped_invocation_no_effect [OF b d, of "[(201, 3)]"] a
    by (simp del: invocations.simps)
  then have c: "invocations () 200 (\<lambda>g::nat. g) [(0, 1), (150, 2), (201, 3)] Map.empty
     = (Map.empty(() \<mapsto> \<lparr>fn = (), lastCall = 201, delay = 200\<rparr>), [Some 1, None, Some 3])"
    by (simp del: invocations.simps)
  show ?thesis
    unfolding b c w using d by (simp add: executed_def)
qed

section \<open>Runs of the controller\<close>

lemma surface_among_bursts [simp]: "filter is_surface (map Burst bs) = []"
  by (induction bs) simp_all

lemma burst_among_bursts [simp]: "filter is_burst (map Burst bs) = map Burst bs"
  by (induction bs) simp_all

lemma show_burst_simps [simp]:
  "phase (show_burst cfg g pos s) = phase s"
  "defaultEmoji (show_burst cfg g pos s) = defaultEmoji s"
  "clock (show_burst cfg g pos s) = clock s"
  "inflight (show_burst cfg g pos s) = inflight s"
  "throttledFns (show_burst cfg g pos s) = throttledFns s"
  "bursts (show_burst cfg g pos s)
     = [\<lparr>glyph = g, burst_position = pos, duration = burst_duration cfg, active = True\<rparr>]"
  by (simp_all add: show_burst_def)

lemma report_failure_simps [simp]:
  "sends (report_failure cfg e g) = []"
  "uncaught (report_failure cfg e g) = []"
  "handler_calls (report_failure cfg e g) = (if onSendReactionError cfg then [(e, g)] else [])"
  "log_lines (report_failure cfg e g) = (if onSendReactionError cfg then [] else [e])"
  by (simp_all add: report_failure_def)

lemma run_append:
  "run cfg s (xs @ ys) =
     (case run cfg s xs of
        (s1, fx1) \<Rightarrow> (case run cfg s1 ys of (s2, fx2) \<Rightarrow> (s2, fx1 @ fx2)))"
  by (induction xs arbitrary: s) (auto split: prod.splits)

lemma run_Cons_fst: "fst (run cfg s (ev # evs)) = fst (run cfg (fst (step cfg s ev)) evs)"
  by (simp split: prod.splits)

lemma run_Cons_snd:
  "snd (run cfg s (ev # evs)) = snd (step cfg s ev) @ snd (run cfg (fst (step cfg s ev)) evs)"
  by (simp split: prod.splits)

lemma run_append_fst:
  "fst (run cfg s (xs @ ys)) = fst (run cfg (fst (run cfg s xs)) ys)"
  by (simp add: run_append split: prod.splits)

lemma run_append_snd:
  "snd (run cfg s (xs @ ys)) = snd (run cfg s xs) @ snd (run cfg (fst (run cfg s xs)) ys)"
  by (simp add: run_append split: prod.splits)

lemma run_single: "run cfg s [ev] = (fst (step cfg s ev), snd (step cfg s ev))"
  by (simp split: prod.splits)

lemma sends_append: "sends (fx @ fx') = sends fx @ sends fx'"
  by (induction fx rule: sends.induct) simp_all



lemma elapsed_nonneg: "0 \<le> elapsed evs"
  by (induction evs rule: elapsed.induct) simp_all

lemma elapsed_append: "elapsed (xs @ ys) = elapsed xs + elapsed ys"
  by (induction xs rule: elapsed.induct) simp_all

lemma elapsed_take: "elapsed (take n evs) \<le> elapsed evs"
proof -
  have "elapsed (take n evs @ drop n evs) = elapsed (take n evs) + elapsed (drop n evs)"
    by (rule elapsed_append)
  then show ?thesis
    using elapsed_nonneg [of "drop n evs"] by simp
qed

text \<open>While the press is held and the timer is not due, nothing is sent.\<close>

lemma step_pressing_early:
  assumes "phase s = Pressing due" "ev \<noteq> PressEnd" "clock s + elapsed [ev] < due"
  shows "phase (fst (step cfg s ev)) = Pressing due \<and>
         defaultEmoji (fst (step cfg s ev)) = defaultEmoji s \<and>
         clock (fst (step cfg s ev)) = clock s + elapsed [ev] \<and>
         sends (snd (step cfg s ev)) = []"
  using assms
  by (cases ev) (auto simp: settle_def split: prod.splits option.splits outcome.splits)

lemma run_pressing_early:
  assumes "phase s = Pressing due" "PressEnd \<notin> set evs" "clock s + elapsed evs < due"
  shows "phase (fst (run cfg s evs)) = Pressing due \<and>
         defaultEmoji (fst (run cfg s evs)) = defaultEmoji s \<and>
         clock (fst (run cfg s evs)) = clock s + elapsed evs \<and>
         sends (snd (run cfg s evs)) = []"
  using assms
proof (induction evs arbitrary: s)
  case Nil
  then show ?case by simp
next
  case (Cons ev evs)
  have split: "elapsed (ev # evs) = elapsed [ev] + elapsed evs"
    using elapsed_append [of "[ev]" evs] by simp
  have early: "clock s + elapsed [ev] < due"
    using Cons.prems(3) split elapsed_nonneg [of evs] by simp
  have ne: "ev \<noteq> PressEnd" using Cons.prems(2) by auto
  note st = step_pressing_early [OF Cons.prems(1) ne early, of cfg]
  have "clock (fst (step cfg s ev)) + elapsed evs < due"
    using st Cons.prems(3) split by simp
  with st Cons.prems(2) have
    "phase (fst (run cfg (fst (step cfg s ev)) evs)) = Pressing due \<and>
     defaultEmoji (fst (run cfg (fst (step cfg s ev)) evs)) = defaultEmoji (fst (step cfg s ev)) \<and>
     clock (fst (run cfg (fst (step cfg s ev)) evs)) = clock (fst (step cfg s ev)) + elapsed evs \<and>
     sends (snd (run cfg (fst (step cfg s ev)) evs)) = []"
    by (intro Cons.IH) auto
  with st split show ?case
    by (simp add: run_Cons_fst run_Cons_snd sends_append del: run.simps)
qed

text \<open>While the surface is open and no terminal event arrives, nothing is sent.\<close>

lemma step_surface_open:
  assumes "phase s = SurfaceOpen" "\<not> terminal ev"
  shows "phase (fst (step cfg s ev)) = SurfaceOpen \<and>
         defaultEmoji (fst (step cfg s ev)) = defaultEmoji s \<and>
         sends (snd (step cfg s ev)) = []"
  using assms
  by (cases ev) (auto simp: settle_def split: prod.splits option.splits outcome.splits)

lemma run_surface_open:
  assumes "phase s = SurfaceOpen" "\<forall>ev \<in> set evs. \<not> terminal ev"
  shows "phase (fst (run cfg s evs)) = SurfaceOpen \<and>
         defaultEmoji (fst (run cfg s evs)) = defaultEmoji s \<and>
         sends (snd (run cfg s evs)) = []"
  using assms
proof (induction evs arbitrary: s)
  case Nil
  then show ?case by simp
next
  case (Cons ev evs)
  have nt: "\<not> terminal ev" using Cons.prems(2) by simp
  note st = step_surface_open [OF Cons.prems(1) nt, of cfg]
  with Cons.prems(2) have
    "phase (fst (run cfg (fst (step cfg s ev)) evs)) = SurfaceOpen \<and>
     defaultEmoji (fst (run cfg (fst (step cfg s ev)) evs)) = defaultEmoji (fst (step cfg s ev)) \<and>
     sends (snd (run cfg (fst (step cfg s ev)) evs)) = []"
    by (intro Cons.IH) auto
  with st show ?case
    by (simp add: run_Cons_fst run_Cons_snd sends_append del: run.simps)
qed

text \<open>A press held until the timer is due opens the surface, and nothing is sent.\<close>

lemma run_pressing_due:
  assumes "phase s = Pressing due" "clock s < due" "due \<le> clock s + elapsed evs"
    "PressEnd \<notin> set evs" "\<forall>ev \<in> set evs. \<not> terminal ev"
  shows "phase (fst (run cfg s evs)) = SurfaceOpen \<and>
         defaultEmoji (fst (run cfg s evs)) = defaultEmoji s \<and>
         sends (snd (run cfg s evs)) = []"
  using assms
proof (induction evs arbitrary: s)
  case Nil
  then show ?case by simp
next
  case (Cons ev evs)
  have split: "elapsed (ev # evs) = elapsed [ev] + elapsed evs"
    using elapsed_append [of "[ev]" evs] by simp
  have ne: "ev \<noteq> PressEnd" using Cons.prems(4) by auto
  have rest: "PressEnd \<notin> set evs" "\<forall>ev \<in> set evs. \<not> terminal ev"
    using Cons.prems(4,5) by auto
  show ?case
  proof (cases "clock s + elapsed [ev] < due")
    case True
    note st = step_pressing_early [OF Cons.prems(1) ne True, of cfg]
    have "phase (fst (run cfg (fst (step cfg s ev)) evs)) = SurfaceOpen \<and>
       defaultEmoji (fst (run cfg (fst (step cfg s ev)) evs)) = defaultEmoji (fst (step cfg s ev)) \<and>
       sends (snd (run cfg (fst (step cfg s ev)) evs)) = []"
      using st True Cons.prems(3) split rest by (intro Cons.IH) auto
    with st show ?thesis
      by (simp add: run_Cons_fst run_Cons_snd sends_append del: run.simps)
  next
    case False
    then obtain d where ev: "ev = Advance d"
      using Cons.prems(2) by (cases ev) auto
    with False Cons.prems(1) have
      st: "phase (fst (step cfg s ev)) = SurfaceOpen"
          "defaultEmoji (fst (step cfg s ev)) = defaultEmoji s"
          "sends (snd (step cfg s ev)) = []"
      by auto
    from run_surface_open [OF st(1) rest(2), of cfg] st show ?thesis
      by (simp add: run_Cons_fst run_Cons_snd sends_append del: run.simps)
  qed
qed

section \<open>Taps, long presses and the open surface\<close>

text \<open>
  C1. With the surface open, \<open>onSelect g\<close> (for any glyph \<open>g\<close>) closes the surface,
  makes exactly one send call, with \<open>g\<close>, and makes \<open>g\<close> the default emoji, so that
  the next tap sends \<open>g\<close>; \<open>onClose\<close> closes the surface, sends nothing and leaves the
  default emoji as it was. Either way the surface is closed afterwards and a further
  \<open>onSelect\<close> or \<open>onClose\<close> changes nothing: it accepts one terminal event.
\<close>

theorem surface_terminal_event:
  assumes "phase s = SurfaceOpen"
  shows "snd (step cfg s (Select g)) = [Send g] \<and>
     phase (fst (step cfg s (Select g))) = Idle \<and>
     defaultEmoji (fst (step cfg s (Select g))) = g \<and>
     filter is_surface (render_controller cfg (fst (step cfg s (Select g)))) = [] \<and>
     sends (snd (run cfg (fst (step cfg s (Select g))) [PressStart, PressEnd])) = [g] \<and>
     step cfg (fst (step cfg s (Select g))) (Select h) = (fst (step cfg s (Select g)), []) \<and>
     step cfg (fst (step cfg s (Select g))) Close = (fst (step cfg s (Select g)), []) \<and>
     step cfg s Close = (s\<lparr>phase := Idle\<rparr>, []) \<and>
     step cfg (s\<lparr>phase := Idle\<rparr>) (Select h) = (s\<lparr>phase := Idle\<rparr>, []) \<and>
     step cfg (s\<lparr>phase := Idle\<rparr>) Close = (s\<lparr>phase := Idle\<rparr>, [])"
  using assms by (simp add: send_def render_controller_def)

theorem surface_terminal_event_witness:
  "phase (fst (run reference_config (init reference_config)
                 [PressStart, Advance 500 :: unit event])) = SurfaceOpen \<and>
   run reference_config (init reference_config)
       [PressStart, Advance 500, Select [0x2764, 0xFE0F], PressStart, PressEnd :: unit event]
     = (\<lparr>phase = Idle, defaultEmoji = [0x2764, 0xFE0F],
         bursts = [\<lparr>glyph = [0x2764, 0xFE0F], burst_position = (100, 100), duration = 600,
                     active = True\<rparr>],
         clock = 500, throttledFns = Map.empty,
         inflight = [[0x2764, 0xFE0F], [0x2764, 0xFE0F]]\<rparr>,
        [Send [0x2764, 0xFE0F], Send [0x2764, 0xFE0F]]) \<and>
   run reference_config (init reference_config) [PressStart, Advance 500, Close :: unit event]
     = (init reference_config\<lparr>clock := 500\<rparr>, [])"
proof -
  let ?s = "fst (run reference_config (init reference_config)
                   [PressStart, Advance 500 :: unit event])"
  have s: "run reference_config (init reference_config) [PressStart, Advance 500 :: unit event]
      = (init reference_config\<lparr>clock := 500, phase := SurfaceOpen\<rparr>, [])"
    by (simp add: init_def reference_config_def)
  then have p: "phase ?s = SurfaceOpen" by simp
  note t = surface_terminal_event [OF p, of reference_config "[0x2764, 0xFE0F]"]
  show ?thesis
    using t
    by (simp add: init_def reference_config_def send_def show_burst_def burst_duration_def)
qed

text \<open>
  C2. From the idle state, a press that ends before the long-press timer is due (the time
  that passes while it is held is less than the threshold) makes exactly one send call,
  with the current default emoji, and returns to the idle state; the surface is open at
  no moment of the session, and no later passing of time opens it, the timer being
  cancelled. The default emoji is the thumbs-up glyph at first.
\<close>

theorem tap_sends_default:
  assumes "phase s = Idle" "PressEnd \<notin> set (evs :: 'e event list)"
    and "elapsed evs < threshold cfg"
  shows "sends (snd (run cfg s (PressStart # evs @ [PressEnd]))) = [defaultEmoji s] \<and>
     phase (fst (run cfg s (PressStart # evs @ [PressEnd]))) = Idle \<and>
     (\<forall>n. phase (fst (run cfg s (take n (PressStart # evs @ [PressEnd])))) \<noteq> SurfaceOpen) \<and>
     (\<forall>d. phase (fst (step cfg (fst (run cfg s (PressStart # evs @ [PressEnd])))
                        (Advance d :: 'e event))) = Idle) \<and>
     defaultEmoji (init cfg) = [0xD83D, 0xDC4D]"
proof -
  let ?s1 = "s\<lparr>phase := Pressing (clock s + threshold cfg)\<rparr>"
  let ?due = "clock s + threshold cfg"
  have start: "step cfg s PressStart = (?s1, [])"
    using assms(1) by simp
  have p1: "phase ?s1 = Pressing ?due" by simp
  have held: "phase (fst (run cfg ?s1 xs)) = Pressing ?due \<and>
         defaultEmoji (fst (run cfg ?s1 xs)) = defaultEmoji s \<and>
         sends (snd (run cfg ?s1 xs)) = []"
    if "PressEnd \<notin> set xs" "elapsed xs \<le> elapsed evs" for xs :: "'e event list"
    using run_pressing_early [OF p1 that(1), of cfg] that(2) assms(3) by simp
  note h = held [OF assms(2) order_refl]
  let ?s2 = "fst (run cfg ?s1 evs)"
  have fin: "step cfg ?s2 PressEnd = send cfg (defaultEmoji s) (?s2\<lparr>phase := Idle\<rparr>)"
    using h by simp
  have a: "sends (snd (run cfg s (PressStart # evs @ [PressEnd]))) = [defaultEmoji s]"
    using h
    by (simp add: run_Cons_snd run_Cons_fst run_append_snd run_single start fin send_def
          sends_append del: run.simps step.simps)
  have b: "phase (fst (run cfg s (PressStart # evs @ [PressEnd]))) = Idle"
    by (simp add: run_Cons_fst run_append_fst run_single start fin send_def
          del: run.simps step.simps)
  have c: "phase (fst (run cfg s (take n (PressStart # evs @ [PressEnd])))) \<noteq> SurfaceOpen"
    for n
  proof (cases n)
    case 0
    then show ?thesis using assms(1) by simp
  next
    case (Suc k)
    show ?thesis
    proof (cases "k \<le> length evs")
      case True
      have "PressEnd \<notin> set (take k evs)"
        using assms(2) by (auto dest: in_set_takeD)
      from held [OF this elapsed_take]
      have "phase (fst (run cfg ?s1 (take k evs))) = Pressing ?due" by simp
      then show ?thesis
        using True Suc by (simp add: run_Cons_fst start del: run.simps step.simps)
    next
      case False
      then have "take n (PressStart # evs @ [PressEnd]) = PressStart # evs @ [PressEnd]"
        using Suc by simp
      then show ?thesis using b by simp
    qed
  qed
  have d: "phase (fst (step cfg (fst (run cfg s (PressStart # evs @ [PressEnd])))
                        (Advance d :: 'e event))) = Idle" for d
    using b by simp
  have "defaultEmoji (init cfg) = [0xD83D, 0xDC4D]"
    by (simp add: init_def)
  with a b c d show ?thesis by blast
qed

theorem tap_sends_default_witness:
  "phase (init reference_config) = Idle \<and>
   PressEnd \<notin> set [Advance 499 :: unit event] \<and>
   elapsed [Advance 499 :: unit event] < threshold reference_config \<and>
   sends (snd (run reference_config (init reference_config)
                 [PressStart, Advance 499, PressEnd :: unit event])) = [[0xD83D, 0xDC4D]] \<and>
   phase (fst (step reference_config
                 (fst (run reference_config (init reference_config)
                        [PressStart, Advance 499, PressEnd :: unit event]))
                 (Advance 600 :: unit event))) = Idle"
proof -
  have 1: "phase (init reference_config) = Idle"
    by (simp add: init_def)
  have 2: "PressEnd \<notin> set [Advance 499 :: unit event]"
    by simp
  have 3: "elapsed [Advance 499 :: unit event] < threshold reference_config"
    by (simp add: reference_config_def)
  have 4: "defaultEmoji (init reference_config) = [0xD83D, 0xDC4D]"
    by (simp add: init_def)
  note tap = tap_sends_default [OF 1 2 3]
  from tap have 5: "sends (snd (run reference_config (init reference_config)
                 ([PressStart, Advance 499, PressEnd :: unit event]))) = [[0xD83D, 0xDC4D]]"
    using 4 by (simp del: run.simps step.simps)
  from tap have "\<forall>d. phase (fst (step reference_config
                 (fst (run reference_config (init reference_config)
                        (PressStart # [Advance 499 :: unit event] @ [PressEnd])))
                 (Advance d :: unit event))) = Idle"
    by (elim conjE)
  then have 6: "phase (fst (step reference_config
                 (fst (run reference_config (init reference_config)
                        [PressStart, Advance 499, PressEnd :: unit event]))
                 (Advance 600 :: unit event))) = Idle"
    by (simp del: run.simps step.simps)
  from 1 2 3 5 6 show ?thesis
    by (simp del: run.simps step.simps)
qed

text \<open>
  C3. From the idle state, with a positive threshold, a press held (no press end) while at
  least the threshold passes opens the surface: it is rendered, at the trigger. From the
  press start up to then, and from then on whatever else arrives (the release included)
  as long as the surface receives neither \<open>onSelect\<close> nor \<open>onClose\<close>, no send call is made
  and the surface stays open.
\<close>

theorem long_press_opens_surface:
  assumes "phase s = Idle" "0 < threshold cfg"
    and "PressEnd \<notin> set hold" "threshold cfg \<le> elapsed hold"
    and "\<forall>ev \<in> set (hold @ rest). \<not> terminal ev"
  shows "phase (fst (run cfg s (PressStart # hold))) = SurfaceOpen \<and>
     filter is_surface (render_controller cfg (fst (run cfg s (PressStart # hold))))
       = [Surface (triggerPosition cfg)] \<and>
     phase (fst (run cfg s (PressStart # hold @ rest))) = SurfaceOpen \<and>
     sends (snd (run cfg s (PressStart # hold @ rest))) = [] \<and>
     defaultEmoji (fst (run cfg s (PressStart # hold @ rest))) = defaultEmoji s"
proof -
  let ?s1 = "s\<lparr>phase := Pressing (clock s + threshold cfg)\<rparr>"
  let ?due = "clock s + threshold cfg"
  have start: "step cfg s PressStart = (?s1, [])"
    using assms(1) by simp
  have nt: "\<forall>ev \<in> set hold. \<not> terminal ev" "\<forall>ev \<in> set rest. \<not> terminal ev"
    using assms(5) by auto
  have "phase ?s1 = Pressing ?due" "clock ?s1 < ?due" "?due \<le> clock ?s1 + elapsed hold"
    using assms(2,4) by simp_all
  from run_pressing_due [OF this assms(3) nt(1), of cfg]
  have h: "phase (fst (run cfg ?s1 hold)) = SurfaceOpen"
    "defaultEmoji (fst (run cfg ?s1 hold)) = defaultEmoji s"
    "sends (snd (run cfg ?s1 hold)) = []"
    by simp_all
  note r = run_surface_open [OF h(1) nt(2), of cfg]
  have a: "run cfg s (PressStart # hold) = run cfg ?s1 hold"
    by (simp add: start del: step.simps)
  have b: "run cfg s (PressStart # hold @ rest) =
      (fst (run cfg (fst (run cfg ?s1 hold)) rest),
       snd (run cfg ?s1 hold) @ snd (run cfg (fst (run cfg ?s1 hold)) rest))"
    by (simp add: start run_append del: step.simps split: prod.splits)
  show ?thesis
    unfolding a b using h r by (simp add: sends_append render_controller_def)
qed

theorem long_press_opens_surface_witness:
  "phase (init reference_config) = Idle \<and> 0 < threshold reference_config \<and>
   PressEnd \<notin> set [Advance 500 :: unit event] \<and>
   threshold reference_config \<le> elapsed [Advance 500 :: unit event] \<and>
   \<not> terminal (Advance 500 :: unit event) \<and> \<not> terminal (PressEnd :: unit event) \<and>
   phase (fst (run reference_config (init reference_config)
                 [PressStart, Advance 500 :: unit event])) = SurfaceOpen \<and>
   phase (fst (run reference_config (init reference_config)
                 [PressStart, Advance 500, PressEnd :: unit event])) = SurfaceOpen \<and>
   sends (snd (run reference_config (init reference_config)
                 [PressStart, Advance 500, PressEnd :: unit event])) = []"
proof -
  have 1: "phase (init reference_config) = Idle"
    by (simp add: init_def)
  have 2: "0 < threshold reference_config"
    by (simp add: reference_config_def)
  have 3: "PressEnd \<notin> set [Advance 500 :: unit event]"
    by simp
  have 4: "threshold reference_config \<le> elapsed [Advance 500 :: unit event]"
    by (simp add: reference_config_def)
  have 5: "\<forall>ev \<in> set ([Advance 500 :: unit event] @ [PressEnd]). \<not> terminal ev"
    by simp
  show ?thesis
    using long_press_opens_surface [OF 1 2 3 4 5] 1 2 3 4
    by (simp del: run.simps)
qed

section \<open>Failed sends\<close>









section \<open>Bursts\<close>

text \<open>A new burst supersedes the ones before it, so no step lets a second one exist.\<close>

lemma step_bursts_bound:
  "length (bursts s) \<le> 1 \<Longrightarrow> length (bursts (fst (step cfg s ev))) \<le> 1"
  by (cases ev)
     (auto simp: send_def settle_def split: phase.splits prod.splits option.splits)

lemma run_bursts_bound:
  "length (bursts s) \<le> 1 \<Longrightarrow> length (bursts (fst (run cfg s evs))) \<le> 1"
proof (induction evs arbitrary: s)
  case Nil
  then show ?case by simp
next
  case (Cons ev evs)
  from Cons.IH [OF step_bursts_bound [OF Cons.prems, of cfg ev]] show ?case
    by (simp add: run_Cons_fst del: run.simps step.simps)
qed

lemma reachable_bursts_bound: "length (bursts (fst (run cfg (init cfg) evs))) \<le> 1"
  by (rule run_bursts_bound) (simp add: init_def)

lemma length_filter_bound: "length xs \<le> n \<Longrightarrow> length (filter P xs) \<le> n"
  by (rule order_trans [OF length_filter_le])

text \<open>
  C7. In every state the controller reaches from its initial state, at most one burst
  descriptor exists, so at most one burst is rendered, and at most one selection
  surface is rendered (it is rendered in the state \<open>SurfaceOpen\<close> only). There a completion
  signal has no effect on the collaborators and changes neither the state of the machine
  nor the default emoji; the signal of the burst leaves no burst rendered; and the same
  signal once more changes nothing.
\<close>

theorem single_surface_single_burst:
  fixes evs :: "'e event list"
  shows
  "length (filter is_surface (render_controller cfg (fst (run cfg (init cfg) evs)))) \<le> 1 \<and>
   length (filter is_burst (render_controller cfg (fst (run cfg (init cfg) evs)))) \<le> 1 \<and>
   length (bursts (fst (run cfg (init cfg) evs))) \<le> 1 \<and>
   snd (step cfg (fst (run cfg (init cfg) evs)) (BurstComplete i :: 'e event)) = [] \<and>
   filter is_burst
       (render_controller cfg
          (fst (step cfg (fst (run cfg (init cfg) evs)) (BurstComplete 0 :: 'e event)))) = [] \<and>
   phase (fst (step cfg (fst (run cfg (init cfg) evs)) (BurstComplete i :: 'e event)))
     = phase (fst (run cfg (init cfg) evs)) \<and>
   defaultEmoji (fst (step cfg (fst (run cfg (init cfg) evs)) (BurstComplete i :: 'e event)))
     = defaultEmoji (fst (run cfg (init cfg) evs)) \<and>
   step cfg (fst (step cfg (fst (run cfg (init cfg) evs)) (BurstComplete i :: 'e event)))
       (BurstComplete i :: 'e event)
     = (fst (step cfg (fst (run cfg (init cfg) evs)) (BurstComplete i :: 'e event)), [])"
proof -
  let ?s = "fst (run cfg (init cfg) evs)"
  note bound = reachable_bursts_bound [of cfg evs]
  have one: "bursts ?s = [] \<or> (\<exists>b. bursts ?s = [b])"
    using bound by (cases "bursts ?s") auto
  have "length (filter is_surface (render_controller cfg ?s)) \<le> 1"
    by (simp add: render_controller_def)
  moreover have "length (filter is_burst (render_controller cfg ?s)) \<le> 1"
    using length_filter_bound [OF bound, of active] by (simp add: render_controller_def)
  moreover have "filter is_burst
       (render_controller cfg (fst (step cfg ?s (BurstComplete 0 :: 'e event)))) = []"
    using one by (auto simp: render_controller_def)
  ultimately show ?thesis
    using bound by simp
qed

lemma run_snoc:
  "run cfg s (evs @ [ev])
     = (fst (step cfg (fst (run cfg s evs)) ev),
        snd (run cfg s evs) @ snd (step cfg (fst (run cfg s evs)) ev))"
  by (simp add: run_append split: prod.splits)

theorem single_surface_single_burst_witness:
  "filter is_burst
     (render_controller reference_config
        (fst (run reference_config (init reference_config)
                [Inbound [0xD83D, 0xDC4D], Inbound [0x2764, 0xFE0F], Advance 201,
                 Inbound [0xD83C, 0xDF89] :: unit event])))
     = [Burst \<lparr>glyph = [0xD83C, 0xDF89], burst_position = (100, 100), duration = 600,
                active = True\<rparr>] \<and>
   filter is_burst
     (render_controller reference_config
        (fst (run reference_config (init reference_config)
                [Inbound [0xD83D, 0xDC4D], Inbound [0x2764, 0xFE0F], Advance 201,
                 Inbound [0xD83C, 0xDF89], BurstComplete 0 :: unit event]))) = [] \<and>
   run reference_config (init reference_config)
       [Inbound [0xD83D, 0xDC4D], Inbound [0x2764, 0xFE0F], Advance 201,
        Inbound [0xD83C, 0xDF89], BurstComplete 0, BurstComplete 0 :: unit event]
     = run reference_config (init reference_config)
         [Inbound [0xD83D, 0xDC4D], Inbound [0x2764, 0xFE0F], Advance 201,
          Inbound [0xD83C, 0xDF89], BurstComplete 0 :: unit event]"
proof -
  let ?evs = "[Inbound [0xD83D, 0xDC4D], Inbound [0x2764, 0xFE0F], Advance 201,
               Inbound [0xD83C, 0xDF89] :: unit event]"
  let ?s = "fst (run reference_config (init reference_config) ?evs)"
  let ?done = "fst (step reference_config ?s (BurstComplete 0 :: unit event))"
  note t = single_surface_single_burst [of reference_config ?evs 0]
  have shown: "filter is_burst (render_controller reference_config ?s)
     = [Burst \<lparr>glyph = [0xD83C, 0xDF89], burst_position = (100, 100), duration = 600,
                active = True\<rparr>]"
    by (simp add: init_def reference_config_def throttled_def show_burst_def
          burst_duration_def render_controller_def)
  from t have gone: "filter is_burst (render_controller reference_config ?done) = []"
    by (elim conjE)
  from t have quiet: "snd (step reference_config ?s (BurstComplete 0 :: unit event)) = []"
    by (elim conjE)
  from t have again: "step reference_config ?done (BurstComplete 0 :: unit event) = (?done, [])"
    by (elim conjE)
  have once: "run reference_config (init reference_config) (?evs @ [BurstComplete 0])
      = (?done, snd (run reference_config (init reference_config) ?evs))"
    by (simp only: run_snoc quiet append_Nil2)
  have twice: "run reference_config (init reference_config)
        ((?evs @ [BurstComplete 0]) @ [BurstComplete 0])
      = (?done, snd (run reference_config (init reference_config) ?evs))"
    by (simp only: run_snoc [of _ _ "?evs @ [BurstComplete 0]"] once again fst_conv snd_conv
          append_Nil2)
  have "filter is_burst (render_controller reference_config
          (fst (run reference_config (init reference_config) (?evs @ [BurstComplete 0])))) = []"
    by (simp only: once fst_conv gone)
  moreover have "run reference_config (init reference_config)
        ((?evs @ [BurstComplete 0]) @ [BurstComplete 0])
      = run reference_config (init reference_config) (?evs @ [BurstComplete 0])"
    by (simp only: once twice)
  ultimately show ?thesis
    using shown by (simp del: run.simps step.simps)
qed

end
